theory Spec2Isabelle
  imports Complex_Main "HOL-Library.Word" "HOL-Library.Sublist" "HOL-Library.List_Lexorder"
    "HOL-Library.Char_ord"
begin

section \<open>Job-Resume Matcher: the text pipeline of app.py\<close>

text \<open>
  The program is one Streamlit script, \<^verbatim>\<open>src/app.py\<close>: a text normaliser
  (\<^verbatim>\<open>preprocess_text\<close>), two extraction helpers, and the handler of the
  "Calculate Match Scores" button, which loads resumes from uploaded files and from pasted
  text, checks that a job description and at least one resume are present, vectorises the
  texts with scikit-learn's \<^verbatim>\<open>TfidfVectorizer\<close>, scores each resume by cosine
  similarity against the job description and sorts the rows with pandas.

  Modelling decisions.
  \<^item> A Python \<^verbatim>\<open>str\<close> is a \<open>string\<close>; a \<open>char\<close> stands for the code point of the
    same number, so the model covers texts whose code points are below 256. The character
    tables below (\<^verbatim>\<open>str.isspace\<close> and the regex class \<^verbatim>\<open>\s\<close>, the regex class
    \<^verbatim>\<open>\w\<close>, \<^verbatim>\<open>str.lower\<close>) are those of CPython 3 on that range.
  \<^item> Calls into third-party libraries whose result depends on data the script does not
    inspect (decoding bytes, reading a PDF or DOCX container, the stop-word table, the
    tie order of the library sorts) are fields of a record \<open>library\<close> that every
    function of the handler takes as its first argument.
  \<^item> \<^verbatim>\<open>st.error\<close>, \<^verbatim>\<open>st.warning\<close> and \<^verbatim>\<open>st.success\<close> append a \<open>message\<close> to
    the list of messages shown; an uncaught Python exception is the \<open>Inl\<close> branch of the
    result.
  \<^item> Term weights and scores are real numbers: the arithmetic of scikit-learn on IEEE
    doubles is modelled exactly, without rounding. The statements about claims rest on
    numbers only where a value is exactly zero, which rounding does not change. Division
    is checked, so that a division by zero is an outcome of the model and not the value
    that HOL gives to \<open>x / 0\<close>.
\<close>

subsection \<open>Characters and strings\<close>

text \<open>
  \<open>isspace\<close>: \<^verbatim>\<open>str.isspace\<close>, also the regex class \<^verbatim>\<open>\s\<close> on \<^verbatim>\<open>str\<close> patterns
  (tab to carriage return, the separators 28 to 31, space, NEL and the no-break space).
  \<open>is_word\<close>: the regex class \<^verbatim>\<open>\w\<close>, that is, alphanumeric code points and the
  underscore (95). \<open>chr_lower\<close>: \<^verbatim>\<open>str.lower\<close> on one code point.
\<close>

definition isspace :: "char \<Rightarrow> bool" where
  "isspace c =
     (let n = (of_char c :: nat)
      in (9 \<le> n \<and> n \<le> 13) \<or> (28 \<le> n \<and> n \<le> 32) \<or> n = 133 \<or> n = 160)"

definition is_word :: "char \<Rightarrow> bool" where
  "is_word c =
     (let n = (of_char c :: nat)
      in (48 \<le> n \<and> n \<le> 57) \<or> (65 \<le> n \<and> n \<le> 90) \<or> n = 95 \<or> (97 \<le> n \<and> n \<le> 122)
         \<or> n = 170 \<or> n = 178 \<or> n = 179 \<or> n = 181 \<or> n = 185 \<or> n = 186
         \<or> (188 \<le> n \<and> n \<le> 190) \<or> (192 \<le> n \<and> n \<le> 214)
         \<or> (216 \<le> n \<and> n \<le> 246) \<or> (248 \<le> n \<and> n \<le> 255))"

definition chr_lower :: "char \<Rightarrow> char" where
  "chr_lower c =
     (let n = (of_char c :: nat)
      in if (65 \<le> n \<and> n \<le> 90) \<or> (192 \<le> n \<and> n \<le> 214) \<or> (216 \<le> n \<and> n \<le> 222)
         then char_of (n + 32) else c)"

text \<open>\<^verbatim>\<open>text.lower()\<close> and \<^verbatim>\<open>text.strip()\<close>.\<close>

definition lower :: "string \<Rightarrow> string" where
  "lower text = map chr_lower text"

definition strip :: "string \<Rightarrow> string" where
  "strip text = rev (dropWhile isspace (rev (dropWhile isspace text)))"

subsection \<open>The normaliser \<^verbatim>\<open>preprocess_text\<close> (lines 13 to 23)\<close>

text \<open>
  \<open>sub_punct\<close> is \<^verbatim>\<open>re.sub(r'[^\w\s]', '', text)\<close>: every character that is neither a
  word character nor whitespace is deleted. \<open>sub_spaces\<close> is
  \<^verbatim>\<open>re.sub(r'\s+', ' ', text)\<close>: every maximal run of whitespace becomes one space.
\<close>

function sub_spaces :: "string \<Rightarrow> string" where
  "sub_spaces [] = []"
| "sub_spaces (c # cs) =
     (if isspace c then CHR '' '' # sub_spaces (dropWhile isspace cs) else c # sub_spaces cs)"
  by pat_completeness auto
termination
  by (relation "measure length") (auto simp: less_Suc_eq_le length_dropWhile_le)

definition sub_punct :: "string \<Rightarrow> string" where
  "sub_punct text = filter (\<lambda>c. is_word c \<or> isspace c) text"

definition preprocess_text :: "string \<Rightarrow> string" where
  "preprocess_text text = strip (sub_spaces (sub_punct (lower text)))"

text \<open>
  \<open>single_spaced\<close> says of a text that its only whitespace character is the space and
  that no two whitespace characters are adjacent.
\<close>

fun single_spaced :: "string \<Rightarrow> bool" where
  "single_spaced [] = True"
| "single_spaced [c] = (\<not> isspace c \<or> c = CHR '' '')"
| "single_spaced (c # d # cs) =
     ((\<not> isspace c \<or> (c = CHR '' '' \<and> \<not> isspace d)) \<and> single_spaced (d # cs))"

subsection \<open>Other string operations of Python\<close>

text \<open>
  \<open>str_split text sep\<close> is \<^verbatim>\<open>text.split(sep)\<close> for a non-empty separator: the text
  is cut at the leftmost, non-overlapping occurrences of \<open>sep\<close>. (Python raises
  \<^verbatim>\<open>ValueError\<close> on an empty separator; the script only passes the literals
  \<^verbatim>\<open>'.'\<close> and \<^verbatim>\<open>'---RESUME-SEPARATOR---'\<close>.) \<open>show_nat n\<close> is the decimal
  numeral an f-string prints for a non-negative integer.
\<close>

fun split_from :: "string \<Rightarrow> string \<Rightarrow> string \<Rightarrow> string list" where
  "split_from sep cur [] = [cur]"
| "split_from sep cur (c # cs) =
     (if sep \<noteq> [] \<and> prefix sep (c # cs)
      then cur # split_from sep [] (drop (length sep - 1) cs)
      else split_from sep (cur @ [c]) cs)"

definition str_split :: "string \<Rightarrow> string \<Rightarrow> string list" where
  "str_split text sep = split_from sep [] text"

fun show_nat :: "nat \<Rightarrow> string" where
  "show_nat n = (if n < 10 then [char_of (48 + n)] else show_nat (n div 10) @ [char_of (48 + n mod 10)])"

declare show_nat.simps [simp del]

subsection \<open>Data of one run\<close>

text \<open>
  An uploaded file has a name and bytes. \<open>py_error\<close> lists the ways a run can go wrong
  before it shows a table: \<^verbatim>\<open>bytes.decode("utf-8")\<close> on line 109 stands outside any
  \<^verbatim>\<open>try\<close>, \<^verbatim>\<open>fit_transform\<close> raises \<^verbatim>\<open>ValueError\<close> when the corpus has no
  term, and \<open>Division_by_zero\<close> is the outcome of a run that divides by zero (every
  division of the numeric part is checked, see \<open>checked_divide\<close>). \<open>message\<close> lists the calls of \<^verbatim>\<open>st.error\<close>, \<^verbatim>\<open>st.warning\<close> and
  \<^verbatim>\<open>st.success\<close> in the script, with the values they interpolate (the text of a caught
  exception is left out). A \<open>result\<close> is one row of the results table.
\<close>

type_synonym byte = "8 word"

datatype py_error = UnicodeDecodeError | ValueError_empty_vocabulary | Division_by_zero

datatype message =
    Error_reading_PDF
  | Error_reading_DOCX
  | Warning_unsupported_file_type string string
  | Warning_could_not_extract string
  | Success_loaded_files nat
  | Success_loaded_pasted nat
  | Error_enter_job_description
  | Error_no_resume
  | Success_matching_complete

record uploaded_file =
  name :: string
  getvalue :: "byte list"

record result =
  Resume_ID :: string
  Original_Resume_Text :: string
  Match_Score :: real

text \<open>
  The library calls. \<open>decode_utf8\<close> is \<^verbatim>\<open>bytes.decode("utf-8")\<close>, \<open>None\<close> when it
  raises \<^verbatim>\<open>UnicodeDecodeError\<close>. \<open>pdf_pages\<close> gives what
  \<^verbatim>\<open>page.extract_text()\<close> returns for each page of \<^verbatim>\<open>pypdf.PdfReader\<close>, and
  \<open>docx_paragraphs\<close> the \<^verbatim>\<open>paragraph.text\<close> of each paragraph of
  \<^verbatim>\<open>docx.Document\<close>; \<open>None\<close> when the library raises inside the helper's
  \<^verbatim>\<open>try\<close>. \<open>stop_words\<close> is scikit-learn's English stop-word table.
  \<open>tie_order tfs\<close> ranks the terms of equal frequency when \<^verbatim>\<open>max_features\<close> keeps
  the most frequent terms of a larger vocabulary, and \<open>sort_values\<close> is
  \<^verbatim>\<open>DataFrame.sort_values(by="Match Score", ascending=False)\<close> followed by
  \<^verbatim>\<open>reset_index\<close>; both use the library's default sort, whose order of equal keys the
  script does not fix.
\<close>

record library =
  decode_utf8 :: "byte list \<Rightarrow> string option"
  pdf_pages :: "byte list \<Rightarrow> string option list option"
  docx_paragraphs :: "byte list \<Rightarrow> string list option"
  stop_words :: "string list"
  tie_order :: "(string \<times> nat) list \<Rightarrow> string \<Rightarrow> nat"
  sort_values :: "result list \<Rightarrow> result list"

subsection \<open>Extraction helpers (lines 26 to 56)\<close>

text \<open>
  Both helpers catch every exception, show an error and return \<^verbatim>\<open>None\<close>. A PDF page
  without text contributes the empty string (\<^verbatim>\<open>page.extract_text() or ""\<close>); every
  DOCX paragraph is followed by a newline.
\<close>

definition extract_text_from_pdf :: "library \<Rightarrow> byte list \<Rightarrow> string option \<times> message list" where
  "extract_text_from_pdf lib file_bytes =
     (case pdf_pages lib file_bytes of
        None \<Rightarrow> (None, [Error_reading_PDF])
      | Some pages \<Rightarrow>
          (Some (concat (map (\<lambda>page. case page of None \<Rightarrow> [] | Some t \<Rightarrow> t) pages)), []))"

definition extract_text_from_docx :: "library \<Rightarrow> byte list \<Rightarrow> string option \<times> message list" where
  "extract_text_from_docx lib file_bytes =
     (case docx_paragraphs lib file_bytes of
        None \<Rightarrow> (None, [Error_reading_DOCX])
      | Some paragraphs \<Rightarrow> (Some (concat (map (\<lambda>p. p @ [CHR 0x0A]) paragraphs)), []))"

subsection \<open>Loading resumes (lines 98 to 134)\<close>

text \<open>
  The handler fills two lists, \<^verbatim>\<open>resume_list\<close> and \<^verbatim>\<open>resume_names\<close>; \<open>shown\<close>
  collects the messages. \<open>add_resume\<close> is the branch of lines 119 to 123: content that is
  not \<^verbatim>\<open>None\<close>, not empty and not blank is appended with the file's name; content
  \<^verbatim>\<open>None\<close> gives a warning; anything else does nothing. \<open>load_file\<close> is the body of
  the loop over the uploaded files and \<open>load_files\<close> the loop, which an exception leaves
  at once.
\<close>

record session =
  resume_list :: "string list"
  resume_names :: "string list"
  shown :: "message list"

definition file_extension :: "string \<Rightarrow> string" where
  "file_extension file_name = lower (last (str_split file_name ''.''))"

definition add_resume :: "session \<Rightarrow> string \<Rightarrow> string option \<Rightarrow> session" where
  "add_resume st file_name resume_content =
     (case resume_content of
        Some content \<Rightarrow>
          if content \<noteq> [] \<and> strip content \<noteq> []
          then st\<lparr>resume_list := resume_list st @ [content],
                  resume_names := resume_names st @ [file_name]\<rparr>
          else st
      | None \<Rightarrow> st\<lparr>shown := shown st @ [Warning_could_not_extract file_name]\<rparr>)"

definition load_file :: "library \<Rightarrow> session \<Rightarrow> uploaded_file \<Rightarrow> py_error + session" where
  "load_file lib st uploaded_file =
     (let file_name = name uploaded_file;
          ext = file_extension file_name
      in if ext = ''txt'' then
           (case decode_utf8 lib (getvalue uploaded_file) of
              None \<Rightarrow> Inl UnicodeDecodeError
            | Some resume_content \<Rightarrow> Inr (add_resume st file_name (Some resume_content)))
         else if ext = ''pdf'' then
           (let (resume_content, errs) = extract_text_from_pdf lib (getvalue uploaded_file)
            in Inr (add_resume (st\<lparr>shown := shown st @ errs\<rparr>) file_name resume_content))
         else if ext = ''docx'' then
           (let (resume_content, errs) = extract_text_from_docx lib (getvalue uploaded_file)
            in Inr (add_resume (st\<lparr>shown := shown st @ errs\<rparr>) file_name resume_content))
         else Inr (st\<lparr>shown := shown st @ [Warning_unsupported_file_type file_name ext]\<rparr>))"

fun load_files :: "library \<Rightarrow> session \<Rightarrow> uploaded_file list \<Rightarrow> py_error + session" where
  "load_files lib st [] = Inr st"
| "load_files lib st (f # fs) =
     (case load_file lib st f of Inl e \<Rightarrow> Inl e | Inr st' \<Rightarrow> load_files lib st' fs)"

definition load_uploaded :: "library \<Rightarrow> session \<Rightarrow> uploaded_file list \<Rightarrow> py_error + session" where
  "load_uploaded lib st uploaded_files =
     (if uploaded_files \<noteq> [] then
        (case load_files lib st uploaded_files of
           Inl e \<Rightarrow> Inl e
         | Inr st' \<Rightarrow> Inr (st'\<lparr>shown := shown st' @ [Success_loaded_files (length (resume_list st'))]\<rparr>))
      else Inr st)"

text \<open>
  Pasted text (lines 127 to 134): the segments between separators are stripped, the blank
  ones are left out, and the others are named \<^verbatim>\<open>Pasted Resume\<close> with the number
  \<^verbatim>\<open>len(uploaded_files) + i + 1\<close>.
\<close>

definition RESUME_SEPARATOR :: string where
  "RESUME_SEPARATOR = ''---RESUME-SEPARATOR---''"

definition pasted_resumes :: "string \<Rightarrow> string list" where
  "pasted_resumes resumes_text_input =
     map strip (filter (\<lambda>res. strip res \<noteq> []) (str_split resumes_text_input RESUME_SEPARATOR))"

definition load_pasted :: "nat \<Rightarrow> string \<Rightarrow> session \<Rightarrow> session" where
  "load_pasted n_uploaded resumes_text_input st =
     (if strip resumes_text_input \<noteq> [] then
        (let pasted = pasted_resumes resumes_text_input
         in if pasted \<noteq> [] then
              st\<lparr>resume_list := resume_list st @ pasted,
                  resume_names := resume_names st @
                    map (\<lambda>i. ''Pasted Resume '' @ show_nat (n_uploaded + i + 1)) [0..<length pasted],
                  shown := shown st @ [Success_loaded_pasted (length pasted)]\<rparr>
            else st)
      else st)"

text \<open>\<open>nonblank\<close>: no text of the resume list is empty or blank.\<close>

definition nonblank :: "session \<Rightarrow> bool" where
  "nonblank st = list_all (\<lambda>r. strip r \<noteq> []) (resume_list st)"

subsection \<open>Vectorisation and scoring (lines 144 to 159)\<close>

text \<open>
  \<^verbatim>\<open>TfidfVectorizer(stop_words='english', max_features=5000)\<close> with its defaults:
  the document is lowercased, its tokens are the maximal runs of word characters of length
  at least two (\<^verbatim>\<open>token_pattern = r"(?u)\b\w\w+\b"\<close>), and stop words are removed.
  The vocabulary is the sorted list of distinct tokens of the corpus; building it raises
  \<^verbatim>\<open>ValueError\<close> when it is empty. Of a vocabulary of more than \<open>max_features\<close> terms
  the \<open>max_features\<close> most frequent ones are kept (\<open>limit_features\<close>: the terms are
  sorted by descending count in the corpus, terms of equal count in the order the library
  gives them), so a vocabulary that is not empty stays so.
\<close>

fun word_runs :: "string \<Rightarrow> string \<Rightarrow> string list" where
  "word_runs cur [] = (if cur = [] then [] else [cur])"
| "word_runs cur (c # cs) =
     (if is_word c then word_runs (cur @ [c]) cs
      else (if cur = [] then [] else [cur]) @ word_runs [] cs)"

definition tokenize :: "string \<Rightarrow> string list" where
  "tokenize doc = filter (\<lambda>w. 2 \<le> length w) (word_runs [] doc)"

definition analyze :: "library \<Rightarrow> string \<Rightarrow> string list" where
  "analyze lib doc = filter (\<lambda>t. t \<notin> set (stop_words lib)) (tokenize (lower doc))"

definition max_features :: nat where
  "max_features = 5000"

definition term_count :: "string list list \<Rightarrow> string \<Rightarrow> nat" where
  "term_count docs t = sum_list (map (\<lambda>d. count_list d t) docs)"

definition limit_features :: "library \<Rightarrow> string list list \<Rightarrow> string list \<Rightarrow> string list" where
  "limit_features lib docs vocab =
     (if length vocab \<le> max_features then vocab
      else let tfs = map (\<lambda>t. (t, term_count docs t)) vocab;
               by_frequency = sort_key (\<lambda>t. - int (term_count docs t))
                                (sort_key (tie_order lib tfs) vocab)
           in filter (\<lambda>t. t \<in> set (take max_features by_frequency)) vocab)"

definition vocabulary :: "library \<Rightarrow> string list list \<Rightarrow> py_error + string list" where
  "vocabulary lib docs =
     (let vocab = sort (remdups (concat docs))
      in if vocab = [] then Inl ValueError_empty_vocabulary
         else Inr (limit_features lib docs vocab))"

text \<open>
  The numeric part. In the library a division by zero does not raise: it yields an
  infinity or a NaN. So that a statement can say whether a run divides by zero, every
  division of the model is \<open>checked_divide\<close>, whose divisor zero is the outcome
  \<open>Division_by_zero\<close>, and \<open>collect\<close> gathers the results of a row of checked
  computations, the first failure winning.

  The weight of a term in a document is its count times \<open>ln ((1 + n) / (1 + df)) + 1\<close>
  (smoothed inverse document frequency, \<open>n\<close> documents, \<open>df\<close> of them with the term).
  \<open>l2_normalize\<close> divides a row by its Euclidean norm and skips a row whose sum of
  squares is zero; it is applied to each row of weights by \<open>fit_transform\<close> and again to
  both arguments by \<^verbatim>\<open>cosine_similarity\<close>, which then takes dot products.
\<close>

definition checked_divide :: "real \<Rightarrow> real \<Rightarrow> py_error + real" where
  "checked_divide x y = (if y = 0 then Inl Division_by_zero else Inr (x / y))"

fun collect :: "(py_error + 'a) list \<Rightarrow> py_error + 'a list" where
  "collect [] = Inr []"
| "collect (r # rs) =
     (case r of
        Inl e \<Rightarrow> Inl e
      | Inr x \<Rightarrow> (case collect rs of Inl e \<Rightarrow> Inl e | Inr xs \<Rightarrow> Inr (x # xs)))"

definition sum_sq :: "real list \<Rightarrow> real" where
  "sum_sq v = sum_list (map (\<lambda>x. x * x) v)"

definition idf :: "string list list \<Rightarrow> string \<Rightarrow> py_error + real" where
  "idf docs t =
     (case checked_divide (1 + real (length docs))
             (1 + real (length (filter (\<lambda>d. t \<in> set d) docs))) of
        Inl e \<Rightarrow> Inl e
      | Inr q \<Rightarrow> Inr (ln q + 1))"

definition l2_normalize :: "real list \<Rightarrow> py_error + real list" where
  "l2_normalize v =
     (let s = sum_sq v
      in if s = 0 then Inr v else collect (map (\<lambda>x. checked_divide x (sqrt s)) v))"

definition tfidf_row :: "string list list \<Rightarrow> string list \<Rightarrow> string list \<Rightarrow> py_error + real list" where
  "tfidf_row docs vocab d =
     (case collect (map (\<lambda>t. case idf docs t of
                                 Inl e \<Rightarrow> Inl e
                               | Inr w \<Rightarrow> Inr (real (count_list d t) * w)) vocab) of
        Inl e \<Rightarrow> Inl e
      | Inr weights \<Rightarrow> l2_normalize weights)"

definition fit_transform :: "library \<Rightarrow> string list \<Rightarrow> py_error + real list list" where
  "fit_transform lib corpus =
     (let docs = map (analyze lib) corpus
      in case vocabulary lib docs of
           Inl e \<Rightarrow> Inl e
         | Inr vocab \<Rightarrow> collect (map (tfidf_row docs vocab) docs))"

definition dot :: "real list \<Rightarrow> real list \<Rightarrow> real" where
  "dot x y = sum_list (map2 (*) x y)"

definition cosine_similarity :: "real list \<Rightarrow> real list list \<Rightarrow> py_error + real list" where
  "cosine_similarity x ys =
     (case l2_normalize x of
        Inl e \<Rightarrow> Inl e
      | Inr xn \<Rightarrow>
          collect (map (\<lambda>y. case l2_normalize y of
                               Inl e \<Rightarrow> Inl e
                             | Inr yn \<Rightarrow> Inr (dot xn yn)) ys))"

definition similarity_scores :: "library \<Rightarrow> string \<Rightarrow> string list \<Rightarrow> py_error + real list" where
  "similarity_scores lib job_description_input resumes =
     (let processed_job_description = preprocess_text job_description_input;
          processed_resumes = map preprocess_text resumes;
          corpus = processed_job_description # processed_resumes
      in case fit_transform lib corpus of
           Inl e \<Rightarrow> Inl e
         | Inr tfidf_matrix \<Rightarrow> cosine_similarity (hd tfidf_matrix) (tl tfidf_matrix))"

text \<open>
  The values that the checked computations return when no divisor is zero: \<open>idf_value\<close>
  for \<open>idf\<close>, \<open>unit_row\<close> for \<open>l2_normalize\<close> and \<open>weight_row\<close> for \<open>tfidf_row\<close>.
  That the checked computations do return them is proved below (\<open>idf_returns\<close>,
  \<open>l2_normalize_returns\<close>, \<open>tfidf_row_returns\<close>).
\<close>

definition idf_value :: "string list list \<Rightarrow> string \<Rightarrow> real" where
  "idf_value docs t =
     ln ((1 + real (length docs)) / (1 + real (length (filter (\<lambda>d. t \<in> set d) docs)))) + 1"

definition unit_row :: "real list \<Rightarrow> real list" where
  "unit_row v = (if sum_sq v = 0 then v else map (\<lambda>x. x / sqrt (sum_sq v)) v)"

definition weight_row :: "string list list \<Rightarrow> string list \<Rightarrow> string list \<Rightarrow> real list" where
  "weight_row docs vocab d = unit_row (map (\<lambda>t. real (count_list d t) * idf_value docs t) vocab)"

subsection \<open>The handler (lines 97 to 174)\<close>

text \<open>
  \<open>results\<close> is the loop of lines 162 to 168, \<open>load_resumes\<close> is lines 98 to 134 (the
  uploaded files first, then the pasted text), and \<open>calculate_match_scores\<close> is the body of
  \<^verbatim>\<open>if st.button("Calculate Match Scores")\<close>: its arguments are the three inputs of the
  page, its value the messages shown and the sorted table, or the exception that ended it.
\<close>

definition results :: "session \<Rightarrow> real list \<Rightarrow> result list" where
  "results st similarity_scores_row =
     map (\<lambda>(i, score). \<lparr>Resume_ID = resume_names st ! i,
                          Original_Resume_Text = resume_list st ! i,
                          Match_Score = score * 100\<rparr>)
         (enumerate 0 similarity_scores_row)"

record run_output =
  messages :: "message list"
  results_df :: "result list"

definition load_resumes :: "library \<Rightarrow> uploaded_file list \<Rightarrow> string \<Rightarrow> py_error + session" where
  "load_resumes lib uploaded_files resumes_text_input =
     (case load_uploaded lib \<lparr>resume_list = [], resume_names = [], shown = []\<rparr> uploaded_files of
        Inl e \<Rightarrow> Inl e
      | Inr st \<Rightarrow> Inr (load_pasted (length uploaded_files) resumes_text_input st))"

definition calculate_match_scores ::
    "library \<Rightarrow> string \<Rightarrow> uploaded_file list \<Rightarrow> string \<Rightarrow> py_error + run_output" where
  "calculate_match_scores lib job_description_input uploaded_files resumes_text_input =
     (case load_resumes lib uploaded_files resumes_text_input of
        Inl e \<Rightarrow> Inl e
      | Inr st \<Rightarrow>
          if job_description_input = [] then
            Inr \<lparr>messages = shown st @ [Error_enter_job_description], results_df = []\<rparr>
          else if resume_list st = [] then
            Inr \<lparr>messages = shown st @ [Error_no_resume], results_df = []\<rparr>
          else
            (case similarity_scores lib job_description_input (resume_list st) of
               Inl e \<Rightarrow> Inl e
             | Inr scores \<Rightarrow>
                 Inr \<lparr>messages = shown st @ [Success_matching_complete],
                      results_df = sort_values lib (results st scores)\<rparr>))"

text \<open>\<open>loading_message\<close> holds of the messages that loading resumes can show.\<close>

definition loading_message :: "message \<Rightarrow> bool" where
  "loading_message m =
     (case m of Error_enter_job_description \<Rightarrow> False | Error_no_resume \<Rightarrow> False
      | Success_matching_complete \<Rightarrow> False | _ \<Rightarrow> True)"

subsection \<open>A library instance for concrete runs\<close>

text \<open>
  Statements about all runs quantify over the \<open>library\<close>. To run the model on concrete
  inputs, \<open>sample_library\<close> fixes one: UTF-8 decoding of texts whose code points are below
  256 (one-byte sequences and the two-byte sequences that start with C2 or C3; any other
  byte sequence is treated as undecodable, which is what Python does for the bytes used
  below), no readable PDF or DOCX container, a few of the English stop words, no
  preference among terms of equal frequency, and a stable descending sort.
\<close>

fun utf8_decode_below_256 :: "byte list \<Rightarrow> string option" where
  "utf8_decode_below_256 [] = Some []"
| "utf8_decode_below_256 [b] = (if b < 0x80 then Some [char_of (unat b)] else None)"
| "utf8_decode_below_256 (b # c # bs) =
     (if b < 0x80 then map_option ((#) (char_of (unat b))) (utf8_decode_below_256 (c # bs))
      else if (b = 0xC2 \<or> b = 0xC3) \<and> 0x80 \<le> c \<and> c < 0xC0
      then map_option ((#) (char_of (unat c + (if b = 0xC3 then 64 else 0))))
             (utf8_decode_below_256 bs)
      else None)"

definition sample_library :: library where
  "sample_library =
     \<lparr>decode_utf8 = utf8_decode_below_256,
      pdf_pages = (\<lambda>_. None),
      docx_paragraphs = (\<lambda>_. None),
      stop_words = [''a'', ''an'', ''and'', ''the'', ''with''],
      tie_order = (\<lambda>tfs t. 0),
      sort_values = sort_key (\<lambda>r. - Match_Score r)\<rparr>"

section \<open>Properties\<close>

subsection \<open>Character tables\<close>

lemma isspace_space: "isspace CHR '' ''"
  by (simp add: isspace_def)

lemma chr_lower_space: "chr_lower CHR '' '' = CHR '' ''"
  by (simp add: chr_lower_def)

lemma chr_lower_idem: "chr_lower (chr_lower c) = chr_lower c"
  unfolding chr_lower_def Let_def
  by (auto simp: of_char_of [where ?'a = nat] simp del: of_char_of)

lemma is_word_lower: "is_word (chr_lower c) = is_word c"
  unfolding chr_lower_def is_word_def Let_def by auto

lemma isspace_lower: "isspace (chr_lower c) = isspace c"
  unfolding chr_lower_def isspace_def Let_def by auto

subsection \<open>Stripping and collapsing whitespace\<close>

lemma dropWhile_hd: "dropWhile P xs = [] \<or> \<not> P (hd (dropWhile P xs))"
  by (induction xs) auto

lemma rev_dropWhile_takeWhile:
  "xs = rev (dropWhile P (rev xs)) @ rev (takeWhile P (rev xs))"
  by (metis rev_append rev_rev_ident takeWhile_dropWhile_id)

lemma strip_suffix_part:
  "dropWhile isspace s = strip s @ rev (takeWhile isspace (rev (dropWhile isspace s)))"
  unfolding strip_def by (rule rev_dropWhile_takeWhile)

lemma strip_decomp: "\<exists>pre post. s = pre @ strip s @ post"
proof -
  have "s = takeWhile isspace s @ dropWhile isspace s" by simp
  with strip_suffix_part [of s]
  have "s = takeWhile isspace s @ strip s @ rev (takeWhile isspace (rev (dropWhile isspace s)))"
    by simp
  then show ?thesis by blast
qed

lemma set_strip: "set (strip s) \<subseteq> set s"
proof -
  obtain pre post where "s = pre @ strip s @ post" using strip_decomp by blast
  then have "set s = set pre \<union> set (strip s) \<union> set post" by (metis set_append sup_assoc)
  then show ?thesis by blast
qed

lemma strip_no_leading: "strip s = [] \<or> \<not> isspace (hd (strip s))"
proof (cases "strip s = []")
  case True
  then show ?thesis by simp
next
  case False
  let ?d = "dropWhile isspace s"
  have d: "?d = strip s @ rev (takeWhile isspace (rev ?d))" by (rule strip_suffix_part)
  with False have e: "hd ?d = hd (strip s)" and n: "?d \<noteq> []"
    by (metis hd_append2, metis append_is_Nil_conv)
  have "?d = [] \<or> \<not> isspace (hd ?d)" by (rule dropWhile_hd)
  with n have "\<not> isspace (hd ?d)" by blast
  with e show ?thesis by (simp only:) simp
qed

lemma strip_no_trailing: "strip s = [] \<or> \<not> isspace (last (strip s))"
proof -
  have "dropWhile isspace (rev (dropWhile isspace s)) = [] \<or>
        \<not> isspace (hd (dropWhile isspace (rev (dropWhile isspace s))))"
    by (rule dropWhile_hd)
  then show ?thesis by (auto simp: strip_def last_rev)
qed

lemma strip_fixed:
  assumes "s = [] \<or> \<not> isspace (hd s)" and "s = [] \<or> \<not> isspace (last s)"
  shows "strip s = s"
proof (cases "s = []")
  case True
  then show ?thesis by (simp add: strip_def)
next
  case False
  with assms have h: "\<not> isspace (hd s)" and l: "\<not> isspace (last s)" by auto
  from False h have 1: "dropWhile isspace s = s" by (cases s) auto
  from False l have "dropWhile isspace (rev s) = rev s"
    by (cases "rev s") (auto simp: last_rev [symmetric] hd_rev)
  with 1 show ?thesis by (simp add: strip_def)
qed

lemma strip_idem: "strip (strip s) = strip s"
  by (rule strip_fixed) (rule strip_no_leading, rule strip_no_trailing)

lemma strip_Nil_iff: "strip s = [] \<longleftrightarrow> list_all isspace s"
proof -
  have "strip s = [] \<longleftrightarrow> (\<forall>x\<in>set (dropWhile isspace s). isspace x)"
    by (simp add: strip_def dropWhile_eq_Nil_conv)
  also have "\<dots> \<longleftrightarrow> dropWhile isspace (dropWhile isspace s) = []"
    by (simp only: dropWhile_eq_Nil_conv)
  also have "\<dots> \<longleftrightarrow> dropWhile isspace s = []"
    by (simp only: dropWhile_idem)
  also have "\<dots> \<longleftrightarrow> list_all isspace s"
    by (simp add: dropWhile_eq_Nil_conv list_all_iff)
  finally show ?thesis .
qed

lemma single_spaced_Cons:
  "single_spaced (c # cs) \<longleftrightarrow>
     (\<not> isspace c \<or> (c = CHR '' '' \<and> (cs = [] \<or> \<not> isspace (hd cs)))) \<and> single_spaced cs"
  by (cases cs) auto

lemma sub_spaces_hd:
  "s = [] \<or> \<not> isspace (hd s) \<Longrightarrow> sub_spaces s = [] \<or> \<not> isspace (hd (sub_spaces s))"
  by (cases s) auto

lemma single_spaced_sub_spaces: "single_spaced (sub_spaces s)"
proof (induction s rule: sub_spaces.induct)
  case 1
  show ?case by simp
next
  case (2 c cs)
  show ?case
  proof (cases "isspace c")
    case True
    have "sub_spaces (dropWhile isspace cs) = []
        \<or> \<not> isspace (hd (sub_spaces (dropWhile isspace cs)))"
      by (rule sub_spaces_hd) (rule dropWhile_hd)
    with True 2 show ?thesis by (simp add: single_spaced_Cons)
  next
    case False
    with 2 show ?thesis by (simp add: single_spaced_Cons)
  qed
qed

lemma sub_spaces_fixed: "single_spaced s \<Longrightarrow> sub_spaces s = s"
proof (induction s rule: single_spaced.induct)
  case 1
  show ?case by simp
next
  case (2 c)
  then show ?case by auto
next
  case (3 c d cs)
  then show ?case by auto
qed

lemma single_spaced_append_right: "single_spaced (xs @ ys) \<Longrightarrow> single_spaced ys"
  by (induction xs) (auto simp: single_spaced_Cons)

lemma single_spaced_append_left: "single_spaced (xs @ ys) \<Longrightarrow> single_spaced xs"
proof (induction xs)
  case Nil
  show ?case by simp
next
  case (Cons x xs)
  then show ?case by (cases xs) (auto simp: single_spaced_Cons)
qed

lemma single_spaced_strip: "single_spaced s \<Longrightarrow> single_spaced (strip s)"
proof -
  assume a: "single_spaced s"
  obtain pre post where "s = pre @ strip s @ post" using strip_decomp by blast
  with a have "single_spaced (pre @ strip s @ post)" by simp
  then have "single_spaced (strip s @ post)" by (rule single_spaced_append_right)
  then show ?thesis by (rule single_spaced_append_left)
qed

lemma set_sub_spaces:
  "set (sub_spaces s) \<subseteq> insert CHR '' '' {c \<in> set s. \<not> isspace c}"
proof (induction s rule: sub_spaces.induct)
  case 1
  show ?case by simp
next
  case (2 c cs)
  have "set (dropWhile isspace cs) \<subseteq> set cs" by (rule set_dropWhileD [THEN subsetI])
  with 2 show ?case by auto
qed

subsection \<open>The normaliser\<close>

lemma preprocess_text_chars:
  "c \<in> set (preprocess_text x) \<Longrightarrow>
     c = CHR '' '' \<or> (is_word c \<and> \<not> isspace c \<and> chr_lower c = c)"
proof -
  assume "c \<in> set (preprocess_text x)"
  then have "c \<in> set (sub_spaces (sub_punct (lower x)))"
    using set_strip by (auto simp: preprocess_text_def)
  then have "c = CHR '' '' \<or> (c \<in> set (sub_punct (lower x)) \<and> \<not> isspace c)"
    using set_sub_spaces by blast
  then show ?thesis
    by (auto simp: sub_punct_def lower_def chr_lower_idem)
qed

lemma preprocess_text_single_spaced: "single_spaced (preprocess_text x)"
  unfolding preprocess_text_def by (intro single_spaced_strip single_spaced_sub_spaces)

lemma preprocess_text_stripped:
  "preprocess_text x = [] \<or>
     (\<not> isspace (hd (preprocess_text x)) \<and> \<not> isspace (last (preprocess_text x)))"
  unfolding preprocess_text_def using strip_no_leading strip_no_trailing by blast

text \<open>
  Claim C6 says that the output of the normaliser holds only lowercase letters, digits and
  whitespace, with no two whitespace characters in a row and none at either end. The
  whitespace part holds (\<open>preprocess_text_single_spaced\<close>, \<open>preprocess_text_stripped\<close>),
  and every character kept is a space or a word character that \<^verbatim>\<open>lower\<close> leaves alone
  (\<open>preprocess_text_chars\<close>). But the class \<^verbatim>\<open>\w\<close> contains the underscore, so the
  pattern \<^verbatim>\<open>[^\w\s]\<close> does not delete it, although the comment on line 21 says that the
  substitution removes punctuation and keeps letters, numbers and whitespace: on the input
  \<^verbatim>\<open>a_b\<close> the normaliser returns \<^verbatim>\<open>a_b\<close>.
\<close>

theorem preprocess_text_keeps_underscore:
  "preprocess_text ''a_b'' = ''a_b''"
  by (simp add: preprocess_text_def strip_def sub_punct_def lower_def chr_lower_def
      is_word_def isspace_def)

text \<open>
  Claim C7: the normaliser is idempotent, \<open>preprocess_text (preprocess_text x) =
  preprocess_text x\<close> for every string \<open>x\<close> (of code points below 256, the strings of
  this model). Each of the four steps leaves a normalised text unchanged: its characters
  are spaces and word characters that \<^verbatim>\<open>lower\<close> fixes, its whitespace is single
  spaces, and it neither starts nor ends with one.
\<close>

theorem preprocess_text_idempotent:
  "preprocess_text (preprocess_text x) = preprocess_text x"
proof -
  let ?y = "preprocess_text x"
  have chars: "c = CHR '' '' \<or> (is_word c \<and> \<not> isspace c \<and> chr_lower c = c)"
    if "c \<in> set ?y" for c
    using that by (rule preprocess_text_chars)
  have low: "chr_lower c = c" if "c \<in> set ?y" for c
    using chars [OF that] chr_lower_space by auto
  have 1: "lower ?y = ?y"
    unfolding lower_def by (rule map_idI) (rule low)
  have keep: "is_word c \<or> isspace c" if "c \<in> set ?y" for c
    using chars [OF that] isspace_space by auto
  have 2: "sub_punct ?y = ?y"
    unfolding sub_punct_def filter_id_conv using keep by blast
  have 3: "sub_spaces ?y = ?y"
    using preprocess_text_single_spaced by (rule sub_spaces_fixed)
  have 4: "strip ?y = ?y"
    unfolding preprocess_text_def by (rule strip_idem)
  have "preprocess_text ?y = strip (sub_spaces (sub_punct (lower ?y)))"
    by (simp only: preprocess_text_def)
  also have "\<dots> = ?y" by (simp only: 1 2 3 4)
  finally show ?thesis .
qed


subsection \<open>Pasted resumes\<close>

lemma set_split_from: "set (concat (split_from sep cur s)) \<subseteq> set cur \<union> set s"
proof (induction sep cur s rule: split_from.induct)
  case (1 sep cur)
  show ?case by simp
next
  case (2 sep cur c cs)
  have d: "set (drop (length sep - 1) cs) \<subseteq> set cs" by (rule set_drop_subset)
  show ?case
  proof (cases "sep \<noteq> [] \<and> prefix sep (c # cs)")
    case True
    then have "split_from sep cur (c # cs) = cur # split_from sep [] (drop (length sep - 1) cs)"
      by (simp only: split_from.simps if_True simp_thms)
    moreover from True 2(1) have "set (concat (split_from sep [] (drop (length sep - 1) cs)))
        \<subseteq> set [] \<union> set (drop (length sep - 1) cs)" by blast
    ultimately show ?thesis using d by (simp only: concat.simps set_append list.set) blast
  next
    case False
    then have "split_from sep cur (c # cs) = split_from sep (cur @ [c]) cs"
      by (simp only: split_from.simps if_False simp_thms)
    moreover from False 2(2) have "set (concat (split_from sep (cur @ [c]) cs))
        \<subseteq> set (cur @ [c]) \<union> set cs" by blast
    ultimately show ?thesis by (simp only: set_append list.set) blast
  qed
qed

lemma split_blank:
  assumes "strip s = []" and "r \<in> set (str_split s sep)"
  shows "strip r = []"
proof -
  from assms(2) have "set r \<subseteq> set (concat (str_split s sep))" by auto
  also have "\<dots> \<subseteq> set s" using set_split_from [of sep "[]" s] by (simp add: str_split_def)
  finally have "set r \<subseteq> set s" .
  with assms(1) show ?thesis unfolding strip_Nil_iff list_all_iff by blast
qed

lemma pasted_resumes_blank: "strip s = [] \<Longrightarrow> pasted_resumes s = []"
  unfolding pasted_resumes_def map_is_Nil_conv filter_empty_conv
  using split_blank by blast

lemma load_pasted_unfold:
  "load_pasted n_uploaded resumes_text_input st =
     (if pasted_resumes resumes_text_input = [] then st
      else st\<lparr>resume_list := resume_list st @ pasted_resumes resumes_text_input,
              resume_names := resume_names st @
                map (\<lambda>i. ''Pasted Resume '' @ show_nat (n_uploaded + i + 1))
                  [0..<length (pasted_resumes resumes_text_input)],
              shown := shown st @ [Success_loaded_pasted (length (pasted_resumes resumes_text_input))]\<rparr>)"
proof (cases "strip resumes_text_input = []")
  case True
  then have "pasted_resumes resumes_text_input = []" by (rule pasted_resumes_blank)
  with True show ?thesis by (simp only: load_pasted_def if_True if_False simp_thms)
next
  case False
  show ?thesis
  proof (cases "pasted_resumes resumes_text_input = []")
    case True
    with False show ?thesis by (simp only: load_pasted_def Let_def if_True if_False simp_thms)
  next
    case nonempty: False
    with False show ?thesis by (simp only: load_pasted_def Let_def if_True if_False simp_thms)
  qed
qed

text \<open>
  Claim C10: in pasted text, a segment between separators that is empty or blank is
  discarded before labelling; it gets no label and no score and does not advance the
  numbering of the \<^verbatim>\<open>Pasted Resume\<close> labels, which counts the retained segments only.
  With \<open>kept\<close> the segments of the pasted text that are not blank, in order, the handler
  appends exactly the stripped \<open>kept\<close> segments to the resume list (only they are scored),
  and exactly one label for each: the retained segment at position \<open>i\<close> (from 0) is named
  with the number \<open>n_uploaded + i + 1\<close>, where \<open>n_uploaded\<close> is
  \<^verbatim>\<open>len(uploaded_files)\<close>. A discarded segment is not in \<open>kept\<close>, so it moves no number.
\<close>

theorem pasted_numbering:
  "(let kept = filter (\<lambda>res. strip res \<noteq> []) (str_split resumes_text_input RESUME_SEPARATOR);
        st' = load_pasted n_uploaded resumes_text_input st
    in resume_list st' = resume_list st @ map strip kept
     \<and> resume_names st' = resume_names st @
         map (\<lambda>i. ''Pasted Resume '' @ show_nat (n_uploaded + i + 1)) [0..<length kept])"
proof -
  define kept where
    "kept = filter (\<lambda>res. strip res \<noteq> []) (str_split resumes_text_input RESUME_SEPARATOR)"
  define label where "label = (\<lambda>i. ''Pasted Resume '' @ show_nat (n_uploaded + i + 1))"
  have p: "pasted_resumes resumes_text_input = map strip kept"
    by (simp only: pasted_resumes_def kept_def)
  have u: "load_pasted n_uploaded resumes_text_input st =
     (if map strip kept = [] then st
      else st\<lparr>resume_list := resume_list st @ map strip kept,
              resume_names := resume_names st @ map label [0..<length (map strip kept)],
              shown := shown st @ [Success_loaded_pasted (length (map strip kept))]\<rparr>)"
    unfolding label_def p [symmetric] by (rule load_pasted_unfold)
  have "resume_list (load_pasted n_uploaded resumes_text_input st) = resume_list st @ map strip kept
     \<and> resume_names (load_pasted n_uploaded resumes_text_input st) = resume_names st @
         map label [0..<length kept]"
  proof (cases "kept = []")
    case True
    then show ?thesis unfolding u by simp
  next
    case False
    then show ?thesis unfolding u by simp
  qed
  then show ?thesis by (simp only: Let_def kept_def label_def)
qed


subsection \<open>Uploaded files\<close>

lemma load_files_append:
  "load_files lib st (fs @ gs) =
     (case load_files lib st fs of Inl e \<Rightarrow> Inl e | Inr st' \<Rightarrow> load_files lib st' gs)"
  by (induction fs arbitrary: st) (simp_all split: sum.splits)

lemma load_file_error: "load_file lib st f = Inl e \<Longrightarrow> e = UnicodeDecodeError"
  unfolding load_file_def Let_def
  by (simp split: if_splits option.splits prod.splits)

lemma load_files_error: "load_files lib st fs = Inl e \<Longrightarrow> e = UnicodeDecodeError"
proof (induction fs arbitrary: st)
  case Nil
  then show ?case by simp
next
  case (Cons f fs)
  then show ?case
    by (cases "load_file lib st f") (auto dest: load_file_error)
qed

lemma load_file_undecodable:
  assumes "file_extension (name f) = ''txt''" and "decode_utf8 lib (getvalue f) = None"
  shows "load_file lib st f = Inl UnicodeDecodeError"
  using assms unfolding load_file_def Let_def by simp

lemma load_files_undecodable:
  assumes "file_extension (name f) = ''txt''" and "decode_utf8 lib (getvalue f) = None"
  shows "load_files lib st (fs @ f # gs) = Inl UnicodeDecodeError"
proof (cases "load_files lib st fs")
  case (Inl e)
  then have "e = UnicodeDecodeError" by (rule load_files_error)
  with Inl show ?thesis by (simp add: load_files_append)
next
  case (Inr st')
  with assms show ?thesis by (simp add: load_files_append load_file_undecodable)
qed

text \<open>
  Claim C3 says that a failure to extract one file never aborts the batch, and that a
  \<^verbatim>\<open>.txt\<close> file whose bytes are not valid UTF-8 fails for that file only. The PDF and
  DOCX helpers do catch their exceptions, but the \<^verbatim>\<open>.txt\<close> branch calls
  \<^verbatim>\<open>decode("utf-8")\<close> outside any \<^verbatim>\<open>try\<close>: whatever the other files, the pasted text
  and the job description are, one undecodable \<^verbatim>\<open>.txt\<close> file ends the whole run with
  \<^verbatim>\<open>UnicodeDecodeError\<close>, and no resume is scored.
\<close>

theorem undecodable_txt_aborts_run:
  assumes "file_extension (name f) = ''txt''" and "decode_utf8 lib (getvalue f) = None"
  shows "calculate_match_scores lib job_description_input (fs @ f # gs) resumes_text_input
           = Inl UnicodeDecodeError"
  using load_files_undecodable [OF assms]
  by (simp add: calculate_match_scores_def load_resumes_def load_uploaded_def)

lemma file_extension_bad_txt: "file_extension ''bad.txt'' = ''txt''"
  by (simp add: file_extension_def str_split_def lower_def chr_lower_def)

theorem undecodable_txt_aborts_run_witness:
  "file_extension (name \<lparr>name = ''bad.txt'', getvalue = [0xFF]\<rparr>) = ''txt''
   \<and> decode_utf8 sample_library (getvalue \<lparr>name = ''bad.txt'', getvalue = [0xFF]\<rparr>) = None
   \<and> calculate_match_scores sample_library ''python developer''
        ([\<lparr>name = ''good.txt'', getvalue = [0x73, 0x71, 0x6C]\<rparr>]
          @ \<lparr>name = ''bad.txt'', getvalue = [0xFF]\<rparr> # [])
        ''java developer''
       = Inl UnicodeDecodeError"
proof -
  have 1: "file_extension (name \<lparr>name = ''bad.txt'', getvalue = [0xFF]\<rparr>) = ''txt''"
    by (simp add: file_extension_bad_txt)
  have 2: "decode_utf8 sample_library (getvalue \<lparr>name = ''bad.txt'', getvalue = [0xFF]\<rparr>) = None"
    by (simp add: sample_library_def)
  from 1 2 undecodable_txt_aborts_run [OF 1 2] show ?thesis by blast
qed


lemma add_resume_blank: "strip content = [] \<Longrightarrow> add_resume st file_name (Some content) = st"
  by (simp add: add_resume_def)

lemma extract_text_from_pdf_Some:
  "fst (extract_text_from_pdf lib b) = Some content \<Longrightarrow> extract_text_from_pdf lib b = (Some content, [])"
  by (auto simp: extract_text_from_pdf_def split: option.splits)

lemma extract_text_from_docx_Some:
  "fst (extract_text_from_docx lib b) = Some content \<Longrightarrow> extract_text_from_docx lib b = (Some content, [])"
  by (auto simp: extract_text_from_docx_def split: option.splits)

lemma load_file_blank:
  assumes "strip content = []"
    and "file_extension (name f) = ''txt'' \<and> decode_utf8 lib (getvalue f) = Some content
       \<or> file_extension (name f) = ''pdf'' \<and> fst (extract_text_from_pdf lib (getvalue f)) = Some content
       \<or> file_extension (name f) = ''docx'' \<and> fst (extract_text_from_docx lib (getvalue f)) = Some content"
  shows "load_file lib st f = Inr st"
proof -
  from assms(2) consider
      (is_txt) "file_extension (name f) = ''txt''" "decode_utf8 lib (getvalue f) = Some content"
    | (is_pdf) "file_extension (name f) = ''pdf''" "fst (extract_text_from_pdf lib (getvalue f)) = Some content"
    | (is_docx) "file_extension (name f) = ''docx''" "fst (extract_text_from_docx lib (getvalue f)) = Some content"
    by blast
  then show ?thesis
  proof cases
    case is_txt
    with assms(1) show ?thesis by (simp add: load_file_def add_resume_blank)
  next
    case is_pdf
    from is_pdf(2) have "extract_text_from_pdf lib (getvalue f) = (Some content, [])"
      by (rule extract_text_from_pdf_Some)
    with is_pdf(1) assms(1) show ?thesis by (simp add: load_file_def add_resume_blank)
  next
    case is_docx
    from is_docx(2) have "extract_text_from_docx lib (getvalue f) = (Some content, [])"
      by (rule extract_text_from_docx_Some)
    with is_docx(1) assms(1) show ?thesis by (simp add: load_file_def add_resume_blank)
  qed
qed

lemma add_resume_nonblank: "nonblank st \<Longrightarrow> nonblank (add_resume st file_name c)"
  by (auto simp: nonblank_def add_resume_def split: option.splits)

lemma load_file_nonblank: "nonblank st \<Longrightarrow> load_file lib st f = Inr st' \<Longrightarrow> nonblank st'"
proof -
  assume n: "nonblank st" and l: "load_file lib st f = Inr st'"
  have m: "nonblank (st\<lparr>shown := ms\<rparr>)" for ms using n by (simp add: nonblank_def)
  from l show ?thesis
    unfolding load_file_def Let_def
    by (auto split: if_splits option.splits prod.splits intro: add_resume_nonblank n m)
qed

lemma load_files_nonblank: "nonblank st \<Longrightarrow> load_files lib st fs = Inr st' \<Longrightarrow> nonblank st'"
proof (induction fs arbitrary: st)
  case Nil
  then show ?case by simp
next
  case (Cons f fs)
  then show ?case
    by (cases "load_file lib st f") (auto dest: load_file_nonblank)
qed

lemma load_uploaded_nonblank: "nonblank st \<Longrightarrow> load_uploaded lib st fs = Inr st' \<Longrightarrow> nonblank st'"
proof -
  assume n: "nonblank st" and l: "load_uploaded lib st fs = Inr st'"
  show ?thesis
  proof (cases "fs = []")
    case True
    with n l show ?thesis by (simp add: load_uploaded_def)
  next
    case False
    with l obtain st2 where 1: "load_files lib st fs = Inr st2"
      and 2: "st' = st2\<lparr>shown := shown st2 @ [Success_loaded_files (length (resume_list st2))]\<rparr>"
      by (auto simp: load_uploaded_def split: sum.splits)
    from n 1 have "nonblank st2" by (rule load_files_nonblank)
    then show ?thesis unfolding 2 by (simp add: nonblank_def)
  qed
qed

lemma pasted_resumes_nonblank: "list_all (\<lambda>r. strip r \<noteq> []) (pasted_resumes s)"
  by (simp add: pasted_resumes_def list_all_iff strip_idem)

lemma load_pasted_nonblank: "nonblank st \<Longrightarrow> nonblank (load_pasted n s st)"
  using pasted_resumes_nonblank [of s]
  by (simp add: load_pasted_unfold nonblank_def)

lemma load_resumes_nonblank:
  "load_resumes lib uploaded_files resumes_text_input = Inr st \<Longrightarrow> nonblank st"
proof -
  assume a: "load_resumes lib uploaded_files resumes_text_input = Inr st"
  have e: "nonblank \<lparr>resume_list = [], resume_names = [], shown = []\<rparr>" by (simp add: nonblank_def)
  from a obtain st1 where 1: "load_uploaded lib \<lparr>resume_list = [], resume_names = [], shown = []\<rparr> uploaded_files = Inr st1"
    and 2: "st = load_pasted (length uploaded_files) resumes_text_input st1"
    by (auto simp: load_resumes_def split: sum.splits)
  from e 1 have "nonblank st1" by (rule load_uploaded_nonblank)
  then show ?thesis unfolding 2 by (rule load_pasted_nonblank)
qed

text \<open>
  Claim C4 says that a candidate whose raw text is empty or blank is excluded before
  vectorisation and is reported in a separate list of excluded candidates, with its
  identifier and the reason \<^verbatim>\<open>EmptyContent\<close>, so that none is dropped silently. The
  exclusion holds; the report does not exist. The script keeps no list of excluded
  candidates, and the branch of lines 119 to 123 warns only when the content is
  \<^verbatim>\<open>None\<close>. As amended: an uploaded file whose extracted text is empty or blank
  leaves the resume list, the names and the messages exactly as they were, and no raw
  text of the resume list, uploaded or pasted, is empty or blank. (The resume list holds
  the raw texts; what the vectoriser reads is their normalisation, which can be empty
  for a raw text that is not blank, such as \<^verbatim>\<open>???\<close>.)
\<close>

theorem blank_candidate_dropped_without_report:
  "(strip content = [] \<and>
      (file_extension (name f) = ''txt'' \<and> decode_utf8 lib (getvalue f) = Some content
       \<or> file_extension (name f) = ''pdf'' \<and> fst (extract_text_from_pdf lib (getvalue f)) = Some content
       \<or> file_extension (name f) = ''docx'' \<and> fst (extract_text_from_docx lib (getvalue f)) = Some content)
     \<longrightarrow> load_file lib st f = Inr st)
   \<and> (load_resumes lib uploaded_files resumes_text_input = Inr st'
     \<longrightarrow> list_all (\<lambda>r. strip r \<noteq> []) (resume_list st'))"
  using load_file_blank load_resumes_nonblank unfolding nonblank_def by blast

lemma file_extension_blank_txt: "file_extension ''blank.txt'' = ''txt''"
  by (simp add: file_extension_def str_split_def lower_def chr_lower_def)

lemma strip_blank: "strip [CHR '' '', CHR 0x0A] = []"
  by (simp add: strip_def isspace_def)

lemma load_file_blank_txt:
  "load_file sample_library st \<lparr>name = ''blank.txt'', getvalue = [0x20, 0x0A]\<rparr> = Inr st"
  by (rule load_file_blank [where content = "[CHR '' '', CHR 0x0A]"])
     (simp_all add: strip_blank file_extension_blank_txt sample_library_def char_of_def bit_Suc_0_iff)

text \<open>
  Claim C4 as stated fails on a run with the job description \<^verbatim>\<open>python developer\<close> and
  the single upload \<^verbatim>\<open>blank.txt\<close> holding a space and a newline: all that the run shows
  is the count of loaded files and the error that no resume was given; nothing names
  \<^verbatim>\<open>blank.txt\<close> or says why it was left out.
\<close>

theorem blank_upload_not_reported:
  "calculate_match_scores sample_library ''python developer''
     [\<lparr>name = ''blank.txt'', getvalue = [0x20, 0x0A]\<rparr>] []
   = Inr \<lparr>messages = [Success_loaded_files 0, Error_no_resume], results_df = []\<rparr>"
  by (simp add: calculate_match_scores_def load_resumes_def load_uploaded_def load_file_blank_txt
      load_pasted_def strip_def)


lemma show_nat_2: "show_nat 2 = ''2''"
  by (simp add: show_nat.simps [of 2] char_of_def bit_Suc_0_iff)

lemma show_nat_Suc_Suc_0: "show_nat (Suc (Suc 0)) = ''2''"
  using show_nat_2 by (simp add: numeral_2_eq_2)

lemma str_split_sql: "str_split ''sql'' RESUME_SEPARATOR = [''sql'']"
  by (simp add: str_split_def RESUME_SEPARATOR_def)

lemma strip_sql: "strip ''sql'' = ''sql''"
  by (simp add: strip_def isspace_def)

lemma load_resumes_sample:
  "load_resumes sample_library [\<lparr>name = ''blank.txt'', getvalue = [0x20, 0x0A]\<rparr>] ''sql''
    = Inr \<lparr>resume_list = [''sql''], resume_names = [''Pasted Resume 2''],
           shown = [Success_loaded_files 0, Success_loaded_pasted 1]\<rparr>"
  by (simp add: load_resumes_def load_uploaded_def load_file_blank_txt load_pasted_unfold
      pasted_resumes_def str_split_sql strip_sql show_nat_Suc_Suc_0)

theorem blank_candidate_dropped_without_report_witness:
  "strip [CHR '' '', CHR 0x0A] = []
   \<and> file_extension (name \<lparr>name = ''blank.txt'', getvalue = [0x20, 0x0A]\<rparr>) = ''txt''
   \<and> decode_utf8 sample_library (getvalue \<lparr>name = ''blank.txt'', getvalue = [0x20, 0x0A]\<rparr>)
       = Some [CHR '' '', CHR 0x0A]
   \<and> load_file sample_library \<lparr>resume_list = [''java''], resume_names = [''cv.txt''], shown = []\<rparr>
         \<lparr>name = ''blank.txt'', getvalue = [0x20, 0x0A]\<rparr>
       = Inr \<lparr>resume_list = [''java''], resume_names = [''cv.txt''], shown = []\<rparr>
   \<and> load_resumes sample_library [\<lparr>name = ''blank.txt'', getvalue = [0x20, 0x0A]\<rparr>] ''sql''
       = Inr \<lparr>resume_list = [''sql''], resume_names = [''Pasted Resume 2''],
              shown = [Success_loaded_files 0, Success_loaded_pasted 1]\<rparr>
   \<and> list_all (\<lambda>r. strip r \<noteq> []) [''sql'']"
proof -
  let ?f = "\<lparr>name = ''blank.txt'', getvalue = [0x20, 0x0A]\<rparr>"
  let ?st = "\<lparr>resume_list = [''java''], resume_names = [''cv.txt''], shown = []\<rparr>"
  let ?st' = "\<lparr>resume_list = [''sql''], resume_names = [''Pasted Resume 2''],
              shown = [Success_loaded_files 0, Success_loaded_pasted 1]\<rparr>"
  have 1: "strip [CHR '' '', CHR 0x0A] = []" by (rule strip_blank)
  have 2: "file_extension (name ?f) = ''txt''" by (simp add: file_extension_blank_txt)
  have 3: "decode_utf8 sample_library (getvalue ?f) = Some [CHR '' '', CHR 0x0A]"
    by (simp add: sample_library_def char_of_def bit_Suc_0_iff)
  have 4: "load_resumes sample_library [?f] ''sql'' = Inr ?st'" by (rule load_resumes_sample)
  from blank_candidate_dropped_without_report
    [of "[CHR '' '', CHR 0x0A]" ?f sample_library ?st "[?f]" "''sql''" ?st'] 1 2 3 4
  have "load_file sample_library ?st ?f = Inr ?st
      \<and> list_all (\<lambda>r. strip r \<noteq> []) (resume_list ?st')"
    by blast
  with 1 2 3 4 show ?thesis by simp
qed

subsection \<open>Vectors of documents without tokens\<close>

lemma sum_list_zero: "(\<And>x. x \<in> set xs \<Longrightarrow> x = (0::real)) \<Longrightarrow> sum_list xs = 0"
  by (induction xs) auto

lemma unit_row_zero: "unit_row (replicate n 0) = replicate n 0"
  by (simp add: unit_row_def sum_sq_def)

lemma weight_row_Nil: "weight_row docs vocab [] = replicate (length vocab) 0"
proof -
  have "map (\<lambda>t. real (count_list [] t) * idf_value docs t) vocab = replicate (length vocab) 0"
    by (simp add: map_replicate_const)
  then show ?thesis by (simp add: weight_row_def unit_row_zero)
qed

lemma dot_zero_left: "dot (replicate n 0) y = 0"
proof -
  have "x = 0" if "x \<in> set (map2 (*) (replicate n (0::real)) y)" for x
  proof -
    from that obtain a b where "(a, b) \<in> set (zip (replicate n (0::real)) y)" and x: "x = a * b"
      by auto
    then have "a \<in> set (replicate n (0::real))" by (meson set_zip_leftD)
    then have "a = 0" by simp
    with x show ?thesis by simp
  qed
  then show ?thesis unfolding dot_def by (rule sum_list_zero)
qed

lemma dot_zero_right: "dot x (replicate n 0) = 0"
proof -
  have "z = 0" if "z \<in> set (map2 (*) x (replicate n (0::real)))" for z
  proof -
    from that obtain a b where "(a, b) \<in> set (zip x (replicate n (0::real)))" and z: "z = a * b"
      by auto
    then have "b \<in> set (replicate n (0::real))" by (meson set_zip_rightD)
    then have "b = 0" by simp
    with z show ?thesis by simp
  qed
  then show ?thesis unfolding dot_def by (rule sum_list_zero)
qed

lemma collect_map_Inr:
  "(\<And>x. x \<in> set xs \<Longrightarrow> f x = Inr (g x)) \<Longrightarrow> collect (map f xs) = Inr (map g xs)"
  by (induction xs) simp_all

lemma sum_sq_nonneg: "0 \<le> sum_sq v"
  unfolding sum_sq_def by (induction v) auto

lemma idf_returns: "idf docs t = Inr (idf_value docs t)"
proof -
  have "0 < 1 + real (length (filter (\<lambda>d. t \<in> set d) docs))" by (simp add: add_pos_nonneg)
  then have "1 + real (length (filter (\<lambda>d. t \<in> set d) docs)) \<noteq> 0" by simp
  then show ?thesis by (simp only: idf_def idf_value_def checked_divide_def if_False sum.case)
qed

lemma l2_normalize_returns: "l2_normalize v = Inr (unit_row v)"
proof (cases "sum_sq v = 0")
  case True
  then show ?thesis by (simp add: l2_normalize_def unit_row_def)
next
  case False
  then have "sqrt (sum_sq v) \<noteq> 0" by simp
  then have "collect (map (\<lambda>x. checked_divide x (sqrt (sum_sq v))) v)
      = Inr (map (\<lambda>x. x / sqrt (sum_sq v)) v)"
    by (intro collect_map_Inr) (simp add: checked_divide_def)
  with False show ?thesis by (simp add: l2_normalize_def unit_row_def)
qed

text \<open>
  The test for a zero sum of squares is what keeps normalisation from dividing by zero:
  without it the row \<open>[0]\<close> is divided by its norm 0.
\<close>

lemma unguarded_division_of_zero_row:
  "collect (map (\<lambda>x. checked_divide x (sqrt (sum_sq [0]))) [0]) = Inl Division_by_zero"
  by (simp add: checked_divide_def sum_sq_def)

lemma tfidf_row_returns: "tfidf_row docs vocab d = Inr (weight_row docs vocab d)"
proof -
  have "collect (map (\<lambda>t. case idf docs t of Inl e \<Rightarrow> Inl e
                             | Inr w \<Rightarrow> Inr (real (count_list d t) * w)) vocab)
      = Inr (map (\<lambda>t. real (count_list d t) * idf_value docs t) vocab)"
    by (intro collect_map_Inr) (simp add: idf_returns)
  then show ?thesis by (simp add: tfidf_row_def weight_row_def l2_normalize_returns)
qed

lemma fit_transform_unfold:
  "fit_transform lib corpus =
     (case vocabulary lib (map (analyze lib) corpus) of
        Inl e \<Rightarrow> Inl e
      | Inr vocab \<Rightarrow>
          Inr (map (weight_row (map (analyze lib) corpus) vocab) (map (analyze lib) corpus)))"
proof -
  have h: "collect (map (tfidf_row docs vocab) ds) = Inr (map (weight_row docs vocab) ds)"
    for docs vocab ds
    by (intro collect_map_Inr) (rule tfidf_row_returns)
  show ?thesis unfolding fit_transform_def Let_def h by (rule refl)
qed

lemma cosine_similarity_returns:
  "cosine_similarity x ys = Inr (map (\<lambda>y. dot (unit_row x) (unit_row y)) ys)"
proof -
  have "collect (map (\<lambda>y. case l2_normalize y of Inl e \<Rightarrow> Inl e
                             | Inr yn \<Rightarrow> Inr (dot (unit_row x) yn)) ys)
      = Inr (map (\<lambda>y. dot (unit_row x) (unit_row y)) ys)"
    by (intro collect_map_Inr) (simp add: l2_normalize_returns)
  then show ?thesis by (simp add: cosine_similarity_def l2_normalize_returns)
qed

lemma similarity_scores_unfold:
  "similarity_scores lib jd resumes =
     (let d0 = analyze lib (preprocess_text jd);
          ds = map (\<lambda>r. analyze lib (preprocess_text r)) resumes
      in case vocabulary lib (d0 # ds) of
           Inl e \<Rightarrow> Inl e
         | Inr vocab \<Rightarrow>
             Inr (map (\<lambda>d. dot (unit_row (weight_row (d0 # ds) vocab d0))
                               (unit_row (weight_row (d0 # ds) vocab d))) ds))"
  by (simp add: similarity_scores_def fit_transform_unfold cosine_similarity_returns Let_def
      comp_def split: sum.splits)

lemma vocabulary_empty:
  "list_all (\<lambda>d. d = []) docs \<Longrightarrow> vocabulary lib docs = Inl ValueError_empty_vocabulary"
proof -
  assume "list_all (\<lambda>d. d = []) docs"
  then have c: "concat docs = []" by (simp add: list_all_iff)
  have s: "sort (remdups (concat docs)) = []" unfolding c by simp
  show ?thesis unfolding vocabulary_def Let_def s by simp
qed

lemma vocabulary_returns:
  assumes "list_ex (\<lambda>d. d \<noteq> []) docs"
  shows "vocabulary lib docs = Inr (limit_features lib docs (sort (remdups (concat docs))))"
proof -
  from assms have "concat docs \<noteq> []" by (auto simp: list_ex_iff)
  then have "sort (remdups (concat docs)) \<noteq> []"
    by (metis length_0_conv length_sort remdups_eq_nil_iff)
  then show ?thesis by (simp add: vocabulary_def Let_def)
qed

lemma vocabulary_cases:
  "vocabulary lib docs = Inl ValueError_empty_vocabulary \<or> (\<exists>vocab. vocabulary lib docs = Inr vocab)"
  by (simp add: vocabulary_def Let_def)

text \<open>
  Cutting a vocabulary to \<open>max_features\<close> terms never empties it, so vectorisation has no
  other failure than the empty vocabulary.
\<close>

lemma limit_features_nonempty:
  assumes "vocab \<noteq> []"
  shows "limit_features lib docs vocab \<noteq> []"
proof (cases "length vocab \<le> max_features")
  case True
  with assms show ?thesis by (simp add: limit_features_def)
next
  case False
  define by_frequency where
    "by_frequency = sort_key (\<lambda>t. - int (term_count docs t))
       (sort_key (tie_order lib (map (\<lambda>t. (t, term_count docs t)) vocab)) vocab)"
  have l: "length by_frequency = length vocab" and m: "set by_frequency = set vocab"
    by (simp_all add: by_frequency_def)
  from assms l have "by_frequency \<noteq> []" by auto
  then obtain x xs where b: "by_frequency = x # xs" by (cases by_frequency) auto
  have "0 < max_features" by (simp add: max_features_def)
  then obtain n where n: "max_features = Suc n" by (cases max_features) auto
  have "x \<in> set (take max_features by_frequency)" by (simp add: b n)
  moreover from m b have "x \<in> set vocab" by auto
  ultimately have "x \<in> set (filter (\<lambda>t. t \<in> set (take max_features by_frequency)) vocab)"
    by simp
  then have "filter (\<lambda>t. t \<in> set (take max_features by_frequency)) vocab \<noteq> []"
    by (metis empty_iff list.set(1))
  with False show ?thesis by (simp add: limit_features_def Let_def by_frequency_def)
qed

lemma similarity_scores_zero:
  assumes "similarity_scores lib jd resumes = Inr scores"
  shows "length scores = length resumes"
    and "analyze lib (preprocess_text jd) = [] \<Longrightarrow> list_all (\<lambda>s. s = 0) scores"
    and "i < length resumes \<Longrightarrow> analyze lib (preprocess_text (resumes ! i)) = [] \<Longrightarrow> scores ! i = 0"
proof -
  define d0 where "d0 = analyze lib (preprocess_text jd)"
  define ds where "ds = map (\<lambda>r. analyze lib (preprocess_text r)) resumes"
  from assms obtain vocab where v: "vocabulary lib (d0 # ds) = Inr vocab"
    and sc: "scores = map (\<lambda>d. dot (unit_row (weight_row (d0 # ds) vocab d0))
                               (unit_row (weight_row (d0 # ds) vocab d))) ds"
    unfolding similarity_scores_unfold Let_def d0_def ds_def
    by (auto split: sum.splits)
  show "length scores = length resumes" by (simp add: sc ds_def)
  show "list_all (\<lambda>s. s = 0) scores" if "analyze lib (preprocess_text jd) = []"
  proof -
    from that have "d0 = []" by (simp add: d0_def)
    then show ?thesis
      by (simp add: sc list_all_iff weight_row_Nil unit_row_zero dot_zero_left)
  qed
  show "scores ! i = 0" if "i < length resumes" "analyze lib (preprocess_text (resumes ! i)) = []"
  proof -
    from that have "ds ! i = []" and "i < length ds" by (simp_all add: ds_def)
    then show ?thesis
      by (simp add: sc weight_row_Nil unit_row_zero dot_zero_right)
  qed
qed

lemma similarity_scores_empty_vocabulary:
  assumes "analyze lib (preprocess_text jd) = []"
    and "list_all (\<lambda>r. analyze lib (preprocess_text r) = []) resumes"
  shows "similarity_scores lib jd resumes = Inl ValueError_empty_vocabulary"
proof -
  from assms have "list_all (\<lambda>d. d = [])
      (analyze lib (preprocess_text jd) # map (\<lambda>r. analyze lib (preprocess_text r)) resumes)"
    by (simp add: list_all_iff)
  then have "vocabulary lib
      (analyze lib (preprocess_text jd) # map (\<lambda>r. analyze lib (preprocess_text r)) resumes)
      = Inl ValueError_empty_vocabulary"
    by (rule vocabulary_empty)
  then show ?thesis by (simp add: similarity_scores_unfold Let_def)
qed

lemma similarity_scores_returns:
  assumes "list_ex (\<lambda>d. d \<noteq> [])
      (analyze lib (preprocess_text jd) # map (\<lambda>r. analyze lib (preprocess_text r)) resumes)"
  shows "\<exists>scores. similarity_scores lib jd resumes = Inr scores"
  using vocabulary_returns [OF assms]
  by (simp add: similarity_scores_unfold Let_def)

lemma similarity_scores_no_division_by_zero:
  "similarity_scores lib jd resumes \<noteq> Inl Division_by_zero"
  using vocabulary_cases
    [of lib "analyze lib (preprocess_text jd) # map (\<lambda>r. analyze lib (preprocess_text r)) resumes"]
  by (auto simp: similarity_scores_unfold Let_def)

lemma fit_transform_no_division_by_zero:
  "fit_transform lib corpus \<noteq> Inl Division_by_zero"
  using vocabulary_cases [of lib "map (analyze lib) corpus"]
  by (auto simp: fit_transform_unfold)

lemma fit_transform_zero_row:
  assumes "fit_transform lib corpus = Inr tfidf_matrix" and "i < length corpus"
    and "analyze lib (corpus ! i) = []"
  shows "tfidf_matrix ! i = replicate (length (tfidf_matrix ! i)) 0"
proof -
  from assms(1) obtain vocab where
    m: "tfidf_matrix = map (weight_row (map (analyze lib) corpus) vocab) (map (analyze lib) corpus)"
    by (auto simp: fit_transform_unfold split: sum.splits)
  from assms(2,3) have "tfidf_matrix ! i = weight_row (map (analyze lib) corpus) vocab []"
    by (simp add: m)
  then show ?thesis by (simp add: weight_row_Nil)
qed

text \<open>
  Claim C5 says that whenever the reference or every candidate is empty after cleaning and
  stop-word removal, the vectors concerned are all-zero and the cosine similarity with an
  all-zero vector is 0, without a numeric error (division by zero). This fails when no
  document of the corpus keeps a token: then the vocabulary is empty and
  \<^verbatim>\<open>fit_transform\<close> raises \<^verbatim>\<open>ValueError\<close>, so there are neither vectors nor
  scores. As amended: if neither the reference nor any candidate keeps a token,
  vectorisation raises \<^verbatim>\<open>ValueError\<close> (empty vocabulary); if some document keeps a
  token, scoring returns; whenever scoring returns, there is one score for each candidate,
  every score is 0 if the reference keeps no token, and the score of a candidate that
  keeps no token is 0; the row of a document that keeps no token is all-zero; and no run
  divides by zero, in vectorisation or in scoring.
\<close>

theorem degenerate_documents:
  "(analyze lib (preprocess_text jd) = []
      \<and> list_all (\<lambda>r. analyze lib (preprocess_text r) = []) resumes
     \<longrightarrow> similarity_scores lib jd resumes = Inl ValueError_empty_vocabulary)
   \<and> (list_ex (\<lambda>d. d \<noteq> [])
        (analyze lib (preprocess_text jd) # map (\<lambda>r. analyze lib (preprocess_text r)) resumes)
     \<longrightarrow> (\<exists>scores. similarity_scores lib jd resumes = Inr scores))
   \<and> (similarity_scores lib jd resumes = Inr scores
     \<longrightarrow> length scores = length resumes
       \<and> (analyze lib (preprocess_text jd) = [] \<longrightarrow> list_all (\<lambda>s. s = 0) scores)
       \<and> (\<forall>i<length resumes.
             analyze lib (preprocess_text (resumes ! i)) = [] \<longrightarrow> scores ! i = 0))
   \<and> (fit_transform lib corpus = Inr tfidf_matrix \<and> k < length corpus
        \<and> analyze lib (corpus ! k) = []
     \<longrightarrow> tfidf_matrix ! k = replicate (length (tfidf_matrix ! k)) 0)
   \<and> similarity_scores lib jd resumes \<noteq> Inl Division_by_zero
   \<and> fit_transform lib corpus \<noteq> Inl Division_by_zero"
  using similarity_scores_empty_vocabulary [of lib jd resumes]
    similarity_scores_returns [of lib jd resumes]
    similarity_scores_zero [of lib jd resumes scores]
    fit_transform_zero_row [of lib corpus tfidf_matrix k]
    similarity_scores_no_division_by_zero [of lib jd resumes]
    fit_transform_no_division_by_zero [of lib corpus]
  by blast

lemma preprocess_the: "preprocess_text ''the'' = ''the''"
  by (simp add: preprocess_text_def strip_def sub_punct_def lower_def chr_lower_def
      is_word_def isspace_def)

lemma preprocess_and: "preprocess_text ''and'' = ''and''"
  by (simp add: preprocess_text_def strip_def sub_punct_def lower_def chr_lower_def
      is_word_def isspace_def)

lemma preprocess_python_developer: "preprocess_text ''python developer'' = ''python developer''"
  by (simp add: preprocess_text_def strip_def sub_punct_def lower_def chr_lower_def
      is_word_def isspace_def)

lemma preprocess_space: "preprocess_text '' '' = []"
  by (simp add: preprocess_text_def strip_def sub_punct_def lower_def chr_lower_def
      is_word_def isspace_def)

lemma preprocess_bangs: "preprocess_text ''!!!'' = []"
  by (simp add: preprocess_text_def strip_def sub_punct_def lower_def chr_lower_def
      is_word_def isspace_def)

lemma preprocess_marks: "preprocess_text ''???'' = []"
  by (simp add: preprocess_text_def strip_def sub_punct_def lower_def chr_lower_def
      is_word_def isspace_def)

lemma analyze_Nil: "analyze lib [] = []"
  by (simp add: analyze_def tokenize_def lower_def)

lemma analyze_the: "analyze sample_library ''the'' = []"
  by (simp add: analyze_def tokenize_def lower_def chr_lower_def is_word_def sample_library_def)

lemma analyze_and: "analyze sample_library ''and'' = []"
  by (simp add: analyze_def tokenize_def lower_def chr_lower_def is_word_def sample_library_def)

lemma analyze_python_developer:
  "analyze sample_library ''python developer'' = [''python'', ''developer'']"
  by (simp add: analyze_def tokenize_def lower_def chr_lower_def is_word_def sample_library_def)


theorem degenerate_documents_witness:
  "analyze sample_library (preprocess_text ''the'') = []
   \<and> list_all (\<lambda>r. analyze sample_library (preprocess_text r) = []) [''and'']
   \<and> similarity_scores sample_library ''the'' [''and''] = Inl ValueError_empty_vocabulary
   \<and> list_ex (\<lambda>d. d \<noteq> [])
        (analyze sample_library (preprocess_text ''the'')
          # map (\<lambda>r. analyze sample_library (preprocess_text r)) [''python developer'', ''and''])
   \<and> analyze sample_library (preprocess_text ([''python developer'', ''and''] ! 1)) = []
   \<and> similarity_scores sample_library ''the'' [''python developer'', ''and''] = Inr [0, 0]
   \<and> (\<exists>tfidf_matrix. fit_transform sample_library [''the'', ''python developer''] = Inr tfidf_matrix
         \<and> analyze sample_library ([''the'', ''python developer''] ! 0) = []
         \<and> tfidf_matrix ! 0 = replicate (length (tfidf_matrix ! 0)) 0)"
proof -
  let ?lib = sample_library
  let ?rs = "[''python developer'', ''and'']"
  have a1: "analyze ?lib (preprocess_text ''the'') = []"
    by (simp add: preprocess_the analyze_the)
  have a2: "list_all (\<lambda>r. analyze ?lib (preprocess_text r) = []) [''and'']"
    by (simp add: preprocess_and analyze_and)
  have a3: "similarity_scores ?lib ''the'' [''and''] = Inl ValueError_empty_vocabulary"
    using degenerate_documents [of ?lib "''the''" "[''and'']"] a1 a2 by blast
  have b1: "list_ex (\<lambda>d. d \<noteq> [])
        (analyze ?lib (preprocess_text ''the'') # map (\<lambda>r. analyze ?lib (preprocess_text r)) ?rs)"
    by (simp add: preprocess_the analyze_the preprocess_python_developer analyze_python_developer)
  have b3: "analyze ?lib (preprocess_text (?rs ! 1)) = []"
    by (simp add: preprocess_and analyze_and)
  from degenerate_documents [of ?lib "''the''" ?rs] b1
  obtain scores where s: "similarity_scores ?lib ''the'' ?rs = Inr scores" by blast
  from degenerate_documents [of ?lib "''the''" ?rs scores] s a1
  have "length scores = length ?rs" and "list_all (\<lambda>s. s = 0) scores" by blast+
  then have "scores = [0, 0]"
    by (cases scores; cases "tl scores"; cases "tl (tl scores)") auto
  with s have b4: "similarity_scores ?lib ''the'' ?rs = Inr [0, 0]" by simp
  have c0: "analyze ?lib ([''the'', ''python developer''] ! 0) = []" by (simp add: analyze_the)
  have "\<exists>vocab. vocabulary ?lib (map (analyze ?lib) [''the'', ''python developer'']) = Inr vocab"
    using vocabulary_returns [of "map (analyze ?lib) [''the'', ''python developer'']" ?lib]
    by (simp add: analyze_the analyze_python_developer)
  then obtain m where c1: "fit_transform ?lib [''the'', ''python developer''] = Inr m"
    by (auto simp: fit_transform_unfold)
  from degenerate_documents [of ?lib _ _ _ "[''the'', ''python developer'']" m 0] c1 c0
  have "m ! 0 = replicate (length (m ! 0)) 0" by simp
  with c1 c0 have c: "\<exists>tfidf_matrix. fit_transform ?lib [''the'', ''python developer''] = Inr tfidf_matrix
         \<and> analyze ?lib ([''the'', ''python developer''] ! 0) = []
         \<and> tfidf_matrix ! 0 = replicate (length (tfidf_matrix ! 0)) 0"
    by blast
  from a1 a2 a3 b1 b3 b4 c show ?thesis by blast
qed

lemma show_nat_1: "show_nat (Suc 0) = ''1''"
  by (simp add: show_nat.simps [of "Suc 0"] char_of_def bit_Suc_0_iff)

lemma str_split_marks: "str_split ''???'' RESUME_SEPARATOR = [''???'']"
  by (simp add: str_split_def RESUME_SEPARATOR_def)

lemma strip_marks: "strip ''???'' = ''???''"
  by (simp add: strip_def isspace_def)

lemma load_resumes_marks:
  "load_resumes sample_library [] ''???''
    = Inr \<lparr>resume_list = [''???''], resume_names = [''Pasted Resume 1''],
           shown = [Success_loaded_pasted 1]\<rparr>"
  by (simp add: load_resumes_def load_uploaded_def load_pasted_unfold
      pasted_resumes_def str_split_marks strip_marks show_nat_1)

text \<open>
  Claim C5 as stated fails on the run with the job description \<^verbatim>\<open>!!!\<close> and the pasted
  resume \<^verbatim>\<open>???\<close>: both pass the checks of lines 136 to 139, both are empty after
  normalisation, and the run ends with \<^verbatim>\<open>ValueError\<close> instead of a score of 0.
\<close>

theorem punctuation_only_run_raises:
  "calculate_match_scores sample_library ''!!!'' [] ''???'' = Inl ValueError_empty_vocabulary"
proof -
  have "similarity_scores sample_library ''!!!'' [''???''] = Inl ValueError_empty_vocabulary"
    by (rule similarity_scores_empty_vocabulary)
       (simp_all add: preprocess_bangs preprocess_marks analyze_Nil)
  then show ?thesis
    by (simp add: calculate_match_scores_def load_resumes_marks)
qed

lemma str_split_python_developer:
  "str_split ''python developer'' RESUME_SEPARATOR = [''python developer'']"
  by (simp add: str_split_def RESUME_SEPARATOR_def)

lemma strip_python_developer: "strip ''python developer'' = ''python developer''"
  by (simp add: strip_def isspace_def)

lemma load_resumes_python_developer:
  "load_resumes sample_library [] ''python developer''
    = Inr \<lparr>resume_list = [''python developer''], resume_names = [''Pasted Resume 1''],
           shown = [Success_loaded_pasted 1]\<rparr>"
  by (simp add: load_resumes_def load_uploaded_def load_pasted_unfold
      pasted_resumes_def str_split_python_developer strip_python_developer show_nat_1)

lemma similarity_scores_blank_reference:
  "similarity_scores sample_library '' '' [''python developer''] = Inr [0]"
proof -
  have "\<exists>scores. similarity_scores sample_library '' '' [''python developer''] = Inr scores"
    by (rule similarity_scores_returns)
       (simp_all add: preprocess_space analyze_Nil preprocess_python_developer
          analyze_python_developer max_features_def)
  then obtain scores where
    s: "similarity_scores sample_library '' '' [''python developer''] = Inr scores" by blast
  then have "length scores = length [''python developer'']" and "list_all (\<lambda>s. s = 0) scores"
    by (rule similarity_scores_zero, rule similarity_scores_zero)
       (simp add: preprocess_space analyze_Nil)
  then have "scores = [0]" by (cases scores; cases "tl scores") auto
  with s show ?thesis by simp
qed

lemma sort_values_sample_single: "sort_values sample_library [r] = [r]"
  by (simp add: sample_library_def)

text \<open>
  Claim C2 says that a job description that is empty or blank makes the run fail with
  \<^verbatim>\<open>MissingReference\<close> and produce no scored result. Line 136 tests
  \<^verbatim>\<open>not job_description_input\<close>, which is true of the empty string only, while the
  tests of the resume texts on lines 119, 127 and 128 strip first. With a job description
  of one space and the pasted resume \<^verbatim>\<open>python developer\<close> the error is not shown and the
  table holds one row, scored 0.
\<close>

theorem blank_job_description_is_scored:
  "calculate_match_scores sample_library '' '' [] ''python developer''
    = Inr \<lparr>messages = [Success_loaded_pasted 1, Success_matching_complete],
           results_df = [\<lparr>Resume_ID = ''Pasted Resume 1'',
                          Original_Resume_Text = ''python developer'',
                          Match_Score = 0\<rparr>]\<rparr>"
  by (simp add: calculate_match_scores_def load_resumes_python_developer
      similarity_scores_blank_reference results_def sort_values_sample_single)


subsection \<open>The check of the job description\<close>

lemma add_resume_messages:
  "list_all loading_message (shown st) \<Longrightarrow> list_all loading_message (shown (add_resume st n c))"
  by (auto simp: add_resume_def loading_message_def split: option.splits)

lemma load_file_messages:
  assumes "list_all loading_message (shown st)" and "load_file lib st f = Inr st'"
  shows "list_all loading_message (shown st')"
proof -
  have e: "list_all loading_message (shown (st\<lparr>shown := shown st @ errs\<rparr>))"
    if "errs = [] \<or> errs = [Error_reading_PDF] \<or> errs = [Error_reading_DOCX]" for errs
    using that assms(1) by (auto simp: loading_message_def)
  have p: "snd (extract_text_from_pdf lib b) = [] \<or> snd (extract_text_from_pdf lib b) = [Error_reading_PDF]" for b
    by (simp add: extract_text_from_pdf_def split: option.splits)
  have d: "snd (extract_text_from_docx lib b) = [] \<or> snd (extract_text_from_docx lib b) = [Error_reading_DOCX]" for b
    by (simp add: extract_text_from_docx_def split: option.splits)
  consider (is_txt) c where "st' = add_resume st (name f) (Some c)"
    | (is_pdf) "st' = add_resume (st\<lparr>shown := shown st @ snd (extract_text_from_pdf lib (getvalue f))\<rparr>)
          (name f) (fst (extract_text_from_pdf lib (getvalue f)))"
    | (is_docx) "st' = add_resume (st\<lparr>shown := shown st @ snd (extract_text_from_docx lib (getvalue f))\<rparr>)
          (name f) (fst (extract_text_from_docx lib (getvalue f)))"
    | (other) "st' = st\<lparr>shown := shown st @ [Warning_unsupported_file_type (name f) (file_extension (name f))]\<rparr>"
    using assms(2) unfolding load_file_def Let_def
    by (auto split: if_splits option.splits prod.splits)
  then show ?thesis
  proof cases
    case is_txt
    then show ?thesis using assms(1) by (simp add: add_resume_messages)
  next
    case is_pdf
    show ?thesis unfolding is_pdf using p [of "getvalue f"] by (intro add_resume_messages e) blast
  next
    case is_docx
    show ?thesis unfolding is_docx using d [of "getvalue f"] by (intro add_resume_messages e) blast
  next
    case other
    then show ?thesis using assms(1) by (simp add: loading_message_def)
  qed
qed

lemma load_files_messages:
  "list_all loading_message (shown st) \<Longrightarrow> load_files lib st fs = Inr st'
     \<Longrightarrow> list_all loading_message (shown st')"
proof (induction fs arbitrary: st)
  case Nil
  then show ?case by simp
next
  case (Cons f fs)
  then show ?case
    by (cases "load_file lib st f") (auto dest: load_file_messages)
qed

lemma load_resumes_messages:
  assumes "load_resumes lib uploaded_files resumes_text_input = Inr st"
  shows "list_all loading_message (shown st)"
proof -
  let ?e = "\<lparr>resume_list = [], resume_names = [], shown = []\<rparr>"
  from assms obtain st1 where 1: "load_uploaded lib ?e uploaded_files = Inr st1"
    and 2: "st = load_pasted (length uploaded_files) resumes_text_input st1"
    by (auto simp: load_resumes_def split: sum.splits)
  have "list_all loading_message (shown st1)"
  proof (cases "uploaded_files = []")
    case True
    with 1 show ?thesis by (auto simp: load_uploaded_def)
  next
    case False
    with 1 obtain st2 where a: "load_files lib ?e uploaded_files = Inr st2"
      and b: "st1 = st2\<lparr>shown := shown st2 @ [Success_loaded_files (length (resume_list st2))]\<rparr>"
      by (auto simp: load_uploaded_def split: sum.splits)
    have "list_all loading_message (shown ?e)" by simp
    then have "list_all loading_message (shown st2)" using a by (rule load_files_messages)
    then show ?thesis unfolding b by (simp add: loading_message_def)
  qed
  then show ?thesis unfolding 2 by (simp add: load_pasted_unfold loading_message_def)
qed

lemma job_description_gate:
  assumes "calculate_match_scores lib job_description_input uploaded_files resumes_text_input = Inr out"
  shows "Error_enter_job_description \<in> set (messages out) \<longleftrightarrow> job_description_input = []"
proof -
  from assms obtain st where l: "load_resumes lib uploaded_files resumes_text_input = Inr st"
    by (auto simp: calculate_match_scores_def split: sum.splits)
  then have "list_all loading_message (shown st)" by (rule load_resumes_messages)
  then have n: "Error_enter_job_description \<notin> set (shown st)"
    by (auto simp: list_all_iff loading_message_def)
  show ?thesis
  proof (cases "job_description_input = []")
    case True
    with assms l show ?thesis by (auto simp: calculate_match_scores_def)
  next
    case False
    with assms l n show ?thesis
      by (auto simp: calculate_match_scores_def split: if_splits sum.splits)
  qed
qed

subsection \<open>Scores in exact arithmetic\<close>

text \<open>
  The model computes weights and scores in the real numbers. There every weight is
  non-negative, a normalised row has Euclidean norm 0 or 1, and so every score lies between
  0 and 100 (\<open>exact_scores_bounded\<close>) and a candidate whose text is the job description
  has the largest score (\<open>exact_identical_text_is_maximal\<close>). These are statements about
  the exact values. The script reports IEEE doubles, where each logarithm, square root,
  division and sum is rounded, so that a computed cosine can differ from the exact one in
  the last place; claims C8 and C9 are about those rounded values and are not settled by
  the lemmas of this subsection.
\<close>

lemma sum_sq_zero: "sum_sq v = 0 \<Longrightarrow> v = replicate (length v) 0"
proof (induction v)
  case Nil
  show ?case by simp
next
  case (Cons x v)
  have "0 \<le> x * x" by simp
  moreover have "0 \<le> sum_sq v" by (rule sum_sq_nonneg)
  moreover from Cons.prems have "x * x + sum_sq v = 0" by (simp add: sum_sq_def)
  ultimately have "x * x = 0" and "sum_sq v = 0" by linarith+
  with Cons.IH show ?case by simp
qed

lemma sum_sq_scale: "sum_sq (map (\<lambda>x. x / c) v) = sum_sq v / (c * c)"
  unfolding sum_sq_def by (induction v) (auto simp: add_divide_distrib)

lemma sum_sq_l2_normalize: "sum_sq (unit_row v) = (if sum_sq v = 0 then 0 else 1)"
proof (cases "sum_sq v = 0")
  case True
  then show ?thesis by (simp add: unit_row_def)
next
  case False
  have "0 \<le> sum_sq v" by (rule sum_sq_nonneg)
  then have "sqrt (sum_sq v) * sqrt (sum_sq v) = sum_sq v" by simp
  with False have "sum_sq (map (\<lambda>x. x / sqrt (sum_sq v)) v) = 1"
    by (simp add: sum_sq_scale)
  with False show ?thesis by (simp add: unit_row_def)
qed

lemma dot_le_mean: "dot u v \<le> (sum_sq u + sum_sq v) / 2"
proof (induction u arbitrary: v)
  case Nil
  have "0 \<le> sum_sq v" by (rule sum_sq_nonneg)
  then show ?case by (simp add: dot_def sum_sq_def)
next
  case (Cons x u)
  show ?case
  proof (cases v)
    case Nil
    have "0 \<le> sum_sq (x # u)" by (rule sum_sq_nonneg)
    with Nil show ?thesis by (simp add: dot_def sum_sq_def)
  next
    case (Cons y w)
    have "0 \<le> (x - y) * (x - y)" by simp
    then have "x * y \<le> (x * x + y * y) / 2" by (simp add: algebra_simps)
    moreover have "dot u w \<le> (sum_sq u + sum_sq w) / 2" by (rule Cons.IH)
    ultimately show ?thesis using Cons by (simp add: dot_def sum_sq_def)
  qed
qed

lemma dot_nonneg:
  "list_all (\<lambda>x. 0 \<le> x) u \<Longrightarrow> list_all (\<lambda>x. 0 \<le> x) v \<Longrightarrow> 0 \<le> dot u v"
proof (induction u arbitrary: v)
  case Nil
  show ?case by (simp add: dot_def)
next
  case (Cons x u)
  then show ?case by (cases v) (auto simp: dot_def)
qed

lemma unit_row_nonneg:
  "list_all (\<lambda>x. 0 \<le> x) v \<Longrightarrow> list_all (\<lambda>x. 0 \<le> x) (unit_row v)"
proof -
  assume a: "list_all (\<lambda>x. 0 \<le> x) v"
  have "0 \<le> sqrt (sum_sq v)" using sum_sq_nonneg [of v] by simp
  then have "0 \<le> x / sqrt (sum_sq v)" if "x \<in> set v" for x
    using a that by (simp add: list_all_iff)
  with a show ?thesis
    by (simp add: unit_row_def list_all_iff)
qed

lemma idf_value_pos: "0 < idf_value docs t"
proof -
  have "length (filter (\<lambda>d. t \<in> set d) docs) \<le> length docs" by simp
  then have "1 \<le> (1 + real (length docs)) / (1 + real (length (filter (\<lambda>d. t \<in> set d) docs)))"
    by (simp add: le_divide_eq)
  then have "0 \<le> ln ((1 + real (length docs)) / (1 + real (length (filter (\<lambda>d. t \<in> set d) docs))))"
    by simp
  then show ?thesis unfolding idf_value_def by linarith
qed

lemma weight_row_nonneg: "list_all (\<lambda>x. 0 \<le> x) (weight_row docs vocab d)"
  unfolding weight_row_def
proof (rule unit_row_nonneg)
  have "0 \<le> real (count_list d t) * idf_value docs t" for t
    using idf_value_pos [of docs t] by simp
  then show "list_all (\<lambda>x. 0 \<le> x) (map (\<lambda>t. real (count_list d t) * idf_value docs t) vocab)"
    by (simp add: list_all_iff)
qed

lemma cosine_bounds:
  assumes "list_all (\<lambda>x. 0 \<le> x) u" and "list_all (\<lambda>x. 0 \<le> x) v"
  shows "0 \<le> dot (unit_row u) (unit_row v)" and "dot (unit_row u) (unit_row v) \<le> 1"
proof -
  show "0 \<le> dot (unit_row u) (unit_row v)"
    using assms by (intro dot_nonneg unit_row_nonneg)
  have "dot (unit_row u) (unit_row v) \<le> (sum_sq (unit_row u) + sum_sq (unit_row v)) / 2"
    by (rule dot_le_mean)
  also have "\<dots> \<le> 1" by (simp add: sum_sq_l2_normalize)
  finally show "dot (unit_row u) (unit_row v) \<le> 1" .
qed

lemma dot_self: "dot w w = sum_sq w"
  by (simp add: dot_def sum_sq_def zip_same_conv_map comp_def)

lemma cosine_self_max:
  "dot (unit_row u) (unit_row v) \<le> dot (unit_row u) (unit_row u)"
proof (cases "sum_sq u = 0")
  case True
  then have "sum_sq (unit_row u) = 0" by (simp add: sum_sq_l2_normalize)
  then have "unit_row u = replicate (length (unit_row u)) 0" by (rule sum_sq_zero)
  then obtain n where z: "unit_row u = replicate n 0" ..
  show ?thesis unfolding z by (simp add: dot_zero_left)
next
  case False
  have "dot (unit_row u) (unit_row v) \<le> (sum_sq (unit_row u) + sum_sq (unit_row v)) / 2"
    by (rule dot_le_mean)
  also have "\<dots> \<le> 1" by (simp add: sum_sq_l2_normalize)
  also have "1 = dot (unit_row u) (unit_row u)"
    using False by (simp add: dot_self sum_sq_l2_normalize)
  finally show ?thesis .
qed

lemma exact_scores_bounded:
  assumes "similarity_scores lib jd resumes = Inr scores"
  shows "list_all (\<lambda>s. 0 \<le> s * 100 \<and> s * 100 \<le> 100) scores"
proof -
  define d0 where "d0 = analyze lib (preprocess_text jd)"
  define ds where "ds = map (\<lambda>r. analyze lib (preprocess_text r)) resumes"
  from assms obtain vocab where
    sc: "scores = map (\<lambda>d. dot (unit_row (weight_row (d0 # ds) vocab d0))
                               (unit_row (weight_row (d0 # ds) vocab d))) ds"
    unfolding similarity_scores_unfold Let_def d0_def ds_def by (auto split: sum.splits)
  have "0 \<le> dot (unit_row (weight_row (d0 # ds) vocab d0))
                 (unit_row (weight_row (d0 # ds) vocab d)) * 100
      \<and> dot (unit_row (weight_row (d0 # ds) vocab d0))
             (unit_row (weight_row (d0 # ds) vocab d)) * 100 \<le> 100" for d
    using cosine_bounds [OF weight_row_nonneg weight_row_nonneg, of "d0 # ds" vocab d0 "d0 # ds" vocab d]
    by simp
  then show ?thesis unfolding sc list_all_iff by simp
qed

lemma exact_identical_text_is_maximal:
  assumes "similarity_scores lib jd resumes = Inr scores"
    and "i < length resumes" and "resumes ! i = jd" and "j < length resumes"
  shows "scores ! j \<le> scores ! i"
proof -
  define d0 where "d0 = analyze lib (preprocess_text jd)"
  define ds where "ds = map (\<lambda>r. analyze lib (preprocess_text r)) resumes"
  from assms(1) obtain vocab where
    sc: "scores = map (\<lambda>d. dot (unit_row (weight_row (d0 # ds) vocab d0))
                               (unit_row (weight_row (d0 # ds) vocab d))) ds"
    unfolding similarity_scores_unfold Let_def d0_def ds_def by (auto split: sum.splits)
  from assms(2,3) have "ds ! i = d0" by (simp add: ds_def d0_def)
  moreover from assms(2,4) have "i < length ds" and "j < length ds" by (simp_all add: ds_def)
  ultimately show ?thesis unfolding sc by (simp add: cosine_self_max)
qed

end
